theory Spec2Isabelle
  imports Main "HOL-Library.Word"
begin

section \<open>pgexec: connection resolution, query execution and result materialisation\<close>

text \<open>
  A shallow embedding of \<^verbatim>\<open>main.go\<close>. The program is a thin layer over libraries
  (\<^verbatim>\<open>strconv\<close>, \<^verbatim>\<open>strings\<close>, \<^verbatim>\<open>fmt\<close>, \<^verbatim>\<open>pgx\<close>, \<^verbatim>\<open>gofrs/uuid\<close>). Pure library
  functions the program depends on are modelled after their documented behaviour;
  the database driver is an environment of functions, and every call the program
  makes into it is recorded in a trace of events, in program order.
\<close>

subsection \<open>Errors, panics and results\<close>

datatype errkind = ErrSyntax | ErrRange

text \<open>
  \<^verbatim>\<open>NumError f s k\<close> is \<^verbatim>\<open>&strconv.NumError{Func: f, Num: s, Err: k}\<close>;
  \<^verbatim>\<open>LibError n\<close> stands for an error value produced by the database driver or
  the UUID library, which the program never inspects.
\<close>

datatype error = NumError string string errkind | LibError nat

datatype panic = NilDereference | TypeAssertion

text \<open>A Go function body either returns or panics.\<close>

datatype 'a result = Return 'a | Panic panic

subsection \<open>\<^verbatim>\<open>connArgs\<close> and \<^verbatim>\<open>trim\<close>\<close>

record connArgs =
  host :: string
  port :: string
  user :: string
  password :: string
  database :: string
  url :: string

definition cutset :: string where
  "cutset = [CHR '' '', CHR 0x09, CHR 0x0A, CHR 0x0D]"

text \<open>\<^verbatim>\<open>strings.Trim(str, " \t\n\r")\<close>: all leading and trailing bytes of the cutset removed.\<close>

definition trim :: "string \<Rightarrow> string" where
  "trim str = rev (dropWhile (\<lambda>c. c \<in> set cutset) (rev (dropWhile (\<lambda>c. c \<in> set cutset) str)))"

subsection \<open>\<^verbatim>\<open>strconv.Atoi\<close> on a 64-bit platform\<close>

definition isDigit :: "char \<Rightarrow> bool" where
  "isDigit c = (48 \<le> (of_char c :: nat) \<and> (of_char c :: nat) \<le> 57)"

definition digitVal :: "char \<Rightarrow> nat" where
  "digitVal c = (of_char c :: nat) - 48"

text \<open>The fast path of \<^verbatim>\<open>Atoi\<close>: fewer than 19 bytes, so the accumulator cannot overflow.\<close>

fun fastDigits :: "nat \<Rightarrow> string \<Rightarrow> nat option" where
  "fastDigits n [] = Some n"
| "fastDigits n (ch # cs) =
     (if isDigit ch then fastDigits (n * 10 + digitVal ch) cs else None)"

text \<open>
  The digit loop of \<^verbatim>\<open>ParseUint(s, 10, 64)\<close>: a byte that is not a decimal digit is a
  syntax error; an accumulator that leaves the \<^verbatim>\<open>uint64\<close> range is a range error,
  reported as soon as it happens.
\<close>

fun ParseUint_loop :: "nat \<Rightarrow> string \<Rightarrow> errkind + nat" where
  "ParseUint_loop n [] = Inr n"
| "ParseUint_loop n (c # cs) =
     (if \<not> isDigit c then Inl ErrSyntax
      else if n \<ge> (2 ^ 64 - 1) div 10 + 1 then Inl ErrRange
      else if n * 10 + digitVal c > 2 ^ 64 - 1 then Inl ErrRange
      else ParseUint_loop (n * 10 + digitVal c) cs)"

definition ParseUint :: "string \<Rightarrow> errkind + nat" where
  "ParseUint s = (if s = [] then Inl ErrSyntax else ParseUint_loop 0 s)"

text \<open>
  \<^verbatim>\<open>ParseInt(s, 10, 0)\<close>: an optional sign, then \<^verbatim>\<open>ParseUint\<close>, then the check
  against the \<^verbatim>\<open>int64\<close> range. A range error of \<^verbatim>\<open>ParseUint\<close> leaves the maximal
  value, which the range check rejects again.
\<close>

definition ParseInt :: "string \<Rightarrow> errkind + int" where
  "ParseInt s0 =
     (if s0 = [] then Inl ErrSyntax
      else
        let neg = (hd s0 = CHR ''-'');
            s = (if hd s0 = CHR ''+'' \<or> hd s0 = CHR ''-'' then tl s0 else s0)
        in case ParseUint s of
             Inl ErrSyntax \<Rightarrow> Inl ErrSyntax
           | Inl ErrRange \<Rightarrow> Inl ErrRange
           | Inr un \<Rightarrow>
               if \<not> neg \<and> un \<ge> 2 ^ 63 then Inl ErrRange
               else if neg \<and> un > 2 ^ 63 then Inl ErrRange
               else Inr (if neg then - int un else int un))"

definition Atoi :: "string \<Rightarrow> error + int" where
  "Atoi s0 =
     (if 0 < length s0 \<and> length s0 < 19 then
        let s = (if hd s0 = CHR ''-'' \<or> hd s0 = CHR ''+'' then tl s0 else s0)
        in if (hd s0 = CHR ''-'' \<or> hd s0 = CHR ''+'') \<and> length s < 1
           then Inl (NumError ''Atoi'' s0 ErrSyntax)
           else case fastDigits 0 s of
                  None \<Rightarrow> Inl (NumError ''Atoi'' s0 ErrSyntax)
                | Some n \<Rightarrow> Inr (if hd s0 = CHR ''-'' then - int n else int n)
      else case ParseInt s0 of
             Inl k \<Rightarrow> Inl (NumError ''Atoi'' s0 k)
           | Inr i \<Rightarrow> Inr i)"

subsection \<open>The driver: configuration, handles, events\<close>

text \<open>
  The fields of \<^verbatim>\<open>pgconn.Config\<close> and \<^verbatim>\<open>pgxpool.Config\<close> that \<^verbatim>\<open>getConnPool\<close> sets; every
  other field keeps its zero value. \<^verbatim>\<open>pgx.ConnConfig\<close> only wraps \<^verbatim>\<open>pgconn.Config\<close>.
\<close>

record pgconn_Config =
  Host :: string
  Port :: "16 word"
  Database :: string
  User :: string
  Password :: string

record pgxpool_Config =
  MaxConns :: "32 word"
  ConnConfig :: pgconn_Config

datatype Pool = Pool nat
datatype Tx = Tx nat


subsection \<open>Values held in an \<^verbatim>\<open>interface{}\<close>\<close>

text \<open>
  The dynamic values a scan target can hold: \<^verbatim>\<open>nil\<close>, a \<^verbatim>\<open>bool\<close>, a signed integer of
  a given bit size (\<^verbatim>\<open>int16\<close>, \<^verbatim>\<open>int32\<close>, \<^verbatim>\<open>int64\<close>), a \<^verbatim>\<open>string\<close>, a byte slice, a byte
  array \<^verbatim>\<open>[n]uint8\<close> (\<open>n\<close> the length of the list), and the \<^verbatim>\<open>*interface{}\<close> the loop
  stores before scanning (its address).
\<close>

datatype iface =
    Nil
  | GBool bool
  | GInt nat int
  | GString string
  | GBytes "8 word list"
  | GByteArray "8 word list"
  | GPointer nat

subsection \<open>\<^verbatim>\<open>fmt.Sprintf\<close> with the verbs the program uses\<close>

definition hextable :: string where
  "hextable = ''0123456789abcdef''"

fun natStr :: "nat \<Rightarrow> string" where
  "natStr n = (if n < 10 then [hextable ! n] else natStr (n div 10) @ [hextable ! (n mod 10)])"

fun hexStr :: "nat \<Rightarrow> string" where
  "hexStr n = (if n < 16 then [hextable ! n] else hexStr (n div 16) @ [hextable ! (n mod 16)])"

declare natStr.simps [simp del] hexStr.simps [simp del]

definition intStr :: "int \<Rightarrow> string" where
  "intStr i = (if i < 0 then CHR ''-'' # natStr (nat (- i)) else natStr (nat i))"

definition hexByte :: "8 word \<Rightarrow> string" where
  "hexByte c = [hextable ! (unat c div 16), hextable ! (unat c mod 16)]"

definition hexBytes :: "8 word list \<Rightarrow> string" where
  "hexBytes bs = concat (map hexByte bs)"

definition bytesStr :: "8 word list \<Rightarrow> string" where
  "bytesStr bs = map (\<lambda>b. char_of (unat b)) bs"

fun joinSp :: "string list \<Rightarrow> string" where
  "joinSp [] = []"
| "joinSp [x] = x"
| "joinSp (x # y # ys) = x @ '' '' @ joinSp (y # ys)"

text \<open>
  A verb that does not fit the operand prints \<^verbatim>\<open>%!verb(type=value)\<close>, the value in its
  \<^verbatim>\<open>%v\<close> form; on a byte slice or array the verb is applied to each element.
\<close>

definition badVerb :: "char \<Rightarrow> string \<Rightarrow> string \<Rightarrow> string" where
  "badVerb verb ty val = ''%!'' @ [verb] @ ''('' @ ty @ ''='' @ val @ '')''"

definition badElems :: "char \<Rightarrow> 8 word list \<Rightarrow> string" where
  "badElems verb bs = ''['' @ joinSp (map (\<lambda>b. badVerb verb ''uint8'' (natStr (unat b))) bs) @ '']''"

fun Sprintf_s :: "iface \<Rightarrow> string" where
  "Sprintf_s Nil = ''%!s(<nil>)''"
| "Sprintf_s (GBool b) = badVerb CHR ''s'' ''bool'' (if b then ''true'' else ''false'')"
| "Sprintf_s (GInt bits i) = badVerb CHR ''s'' (''int'' @ natStr bits) (intStr i)"
| "Sprintf_s (GString s) = s"
| "Sprintf_s (GBytes bs) = bytesStr bs"
| "Sprintf_s (GByteArray bs) = bytesStr bs"
| "Sprintf_s (GPointer a) = badVerb CHR ''s'' ''*interface {}'' (''0x'' @ hexStr a)"

fun Sprintf_t :: "iface \<Rightarrow> string" where
  "Sprintf_t Nil = ''%!t(<nil>)''"
| "Sprintf_t (GBool b) = (if b then ''true'' else ''false'')"
| "Sprintf_t (GInt bits i) = badVerb CHR ''t'' (''int'' @ natStr bits) (intStr i)"
| "Sprintf_t (GString s) = badVerb CHR ''t'' ''string'' s"
| "Sprintf_t (GBytes bs) = badElems CHR ''t'' bs"
| "Sprintf_t (GByteArray bs) = badElems CHR ''t'' bs"
| "Sprintf_t (GPointer a) = badVerb CHR ''t'' ''*interface {}'' (''0x'' @ hexStr a)"

fun Sprintf_x :: "iface \<Rightarrow> string" where
  "Sprintf_x Nil = ''%!x(<nil>)''"
| "Sprintf_x (GBool b) = badVerb CHR ''x'' ''bool'' (if b then ''true'' else ''false'')"
| "Sprintf_x (GInt bits i) = (if i < 0 then CHR ''-'' # hexStr (nat (- i)) else hexStr (nat i))"
| "Sprintf_x (GString s) = hexBytes (map (\<lambda>c. of_char c) s)"
| "Sprintf_x (GBytes bs) = hexBytes bs"
| "Sprintf_x (GByteArray bs) = hexBytes bs"
| "Sprintf_x (GPointer a) = hexStr a"

subsection \<open>\<^verbatim>\<open>gofrs/uuid\<close>\<close>

text \<open>
  A \<^verbatim>\<open>uuid.UUID\<close> is a \<^verbatim>\<open>[16]byte\<close>. \<^verbatim>\<open>FromBytes\<close> is \<^verbatim>\<open>UnmarshalBinary\<close>: it checks
  the length of the slice and copies it. \<^verbatim>\<open>String\<close> writes the canonical form
  \<^verbatim>\<open>xxxxxxxx-xxxx-xxxx-xxxx-xxxxxxxxxxxx\<close> from the lower-case hex table.
\<close>

type_synonym UUID = "8 word list"

definition uuid_FromBytes :: "8 word list \<Rightarrow> error + UUID" where
  "uuid_FromBytes input = (if length input \<noteq> 16 then Inl (LibError (length input)) else Inr input)"

definition uuid_String :: "UUID \<Rightarrow> string" where
  "uuid_String u =
     hexBytes (take 4 u) @ ''-'' @ hexBytes (take 2 (drop 4 u)) @ ''-'' @
     hexBytes (take 2 (drop 6 u)) @ ''-'' @ hexBytes (take 2 (drop 8 u)) @ ''-'' @
     hexBytes (drop 10 u)"

subsection \<open>The result cursor\<close>

definition UUIDOID :: "32 word" where "UUIDOID = 2950"
definition BoolOID :: "32 word" where "BoolOID = 16"

record FieldDescription =
  Name :: string
  DataTypeOID :: "32 word"

text \<open>
  What one call of \<^verbatim>\<open>rows.Scan\<close> does to its destinations: each destination is either
  written (with the decoded value, \<^verbatim>\<open>nil\<close> for SQL NULL) or left as it was, and the
  call returns an error or \<^verbatim>\<open>nil\<close>. \<open>bufAddr\<close> is the address at which the runtime
  allocates the \<^verbatim>\<open>scans\<close> slice of that iteration (16 bytes per element).
\<close>

datatype slot = Written iface | Untouched

record scan =
  slots :: "slot list"
  scanErr :: "error option"
  bufAddr :: nat

text \<open>\<^verbatim>\<open>pgx.Rows\<close>: the column descriptors, and one \<open>scan\<close> for each time \<^verbatim>\<open>Next\<close> returns true.\<close>

record Rows =
  FieldDescriptions :: "FieldDescription list"
  pending :: "scan list"

definition selfPointers :: "nat \<Rightarrow> nat \<Rightarrow> iface list" where
  "selfPointers addr n = map (\<lambda>i. GPointer (addr + 16 * i)) [0..<n]"

fun writeSlots :: "slot list \<Rightarrow> iface list \<Rightarrow> iface list" where
  "writeSlots ws [] = []"
| "writeSlots [] (d # ds) = d # ds"
| "writeSlots (Written v # ws) (d # ds) = v # writeSlots ws ds"
| "writeSlots (Untouched # ws) (d # ds) = d # writeSlots ws ds"

definition Scan :: "scan \<Rightarrow> iface list \<Rightarrow> iface list \<times> error option" where
  "Scan sc dest = (writeSlots (slots sc) dest, scanErr sc)"

subsection \<open>The driver as an environment, and the trace of calls\<close>

record env =
  pgxpool_New :: "string \<Rightarrow> Pool option \<times> error option"
  pgxpool_NewWithConfig :: "pgxpool_Config \<Rightarrow> Pool option \<times> error option"
  Begin :: "Pool \<Rightarrow> Tx option \<times> error option"
  Query :: "Tx \<Rightarrow> string \<Rightarrow> Rows \<times> error option"
  Commit :: "Tx \<Rightarrow> error option"

datatype event =
    EvNew string
  | EvNewWithConfig pgxpool_Config
  | EvClose Pool
  | EvBegin Pool "Tx option"
  | EvRollback Tx
  | EvQuery Tx string
  | EvRender "string list" "string option list list"
  | EvCommit Tx "error option"

subsection \<open>\<^verbatim>\<open>getConnPool\<close>\<close>

definition getConnPool :: "env \<Rightarrow> connArgs \<Rightarrow> event list \<times> Pool option \<times> error option" where
  "getConnPool e a =
     (if trim (url a) \<noteq> [] then ([EvNew (url a)], pgxpool_New e (url a))
      else case Atoi (trim (port a)) of
             Inl err \<Rightarrow> ([], None, Some err)
           | Inr port' \<Rightarrow>
               let cfg = \<lparr>MaxConns = 10,
                          ConnConfig = \<lparr>Host = host a, Port = word_of_int port',
                                        Database = database a, User = user a,
                                        Password = password a\<rparr>\<rparr>
               in ([EvNewWithConfig cfg], pgxpool_NewWithConfig e cfg))"

subsection \<open>\<^verbatim>\<open>scanRowsToMaps\<close>\<close>

type_synonym decoder = "8 word list \<Rightarrow> error + UUID"
type_synonym rowMap = "string \<rightharpoonup> string"

text \<open>
  The body of the inner loop for one column: the display string of the value \<open>v\<close> in
  a column described by \<open>f\<close>. The type assertion \<^verbatim>\<open>v.([16]uint8)\<close> panics on any other
  dynamic type. The UUID decoder is a parameter; the program uses \<open>uuid_FromBytes\<close>.
\<close>

definition cellValue :: "decoder \<Rightarrow> FieldDescription \<Rightarrow> iface \<Rightarrow> string result" where
  "cellValue dec f v =
     (if v \<noteq> Nil then
        if DataTypeOID f = UUIDOID then
          (case v of
             GByteArray arr \<Rightarrow>
               if length arr = 16 then
                 (case dec arr of
                    Inl err \<Rightarrow> Return (Sprintf_x v)
                  | Inr uuidVal \<Rightarrow> Return (uuid_String uuidVal))
               else Panic TypeAssertion
           | _ \<Rightarrow> Panic TypeAssertion)
        else if DataTypeOID f = BoolOID then Return (Sprintf_t v)
        else Return (Sprintf_s v)
      else Return ''null'')"

text \<open>
  The inner loop \<^verbatim>\<open>for i, v := range scans\<close>, over the pairs \<^verbatim>\<open>(fields[i], v)\<close>:
  \<^verbatim>\<open>scans\<close> is made with \<^verbatim>\<open>len(fields)\<close> elements.
\<close>

fun fillRow :: "decoder \<Rightarrow> (FieldDescription \<times> iface) list \<Rightarrow> rowMap \<Rightarrow> rowMap result" where
  "fillRow dec [] row = Return row"
| "fillRow dec ((f, v) # rest) row =
     (case cellValue dec f v of
        Panic p \<Rightarrow> Panic p
      | Return value \<Rightarrow> fillRow dec rest (row(Name f \<mapsto> value)))"

text \<open>One iteration of the outer loop; the error that \<^verbatim>\<open>rows.Scan\<close> returns is dropped.\<close>

definition scanOne :: "decoder \<Rightarrow> FieldDescription list \<Rightarrow> scan \<Rightarrow> rowMap result" where
  "scanOne dec fds sc =
     (let scans = selfPointers (bufAddr sc) (length fds);
          scanned = fst (Scan sc scans)
      in fillRow dec (zip fds scanned) Map.empty)"

fun scanLoop :: "decoder \<Rightarrow> FieldDescription list \<Rightarrow> scan list \<Rightarrow> rowMap list \<Rightarrow> rowMap list result" where
  "scanLoop dec fds [] rowMaps = Return rowMaps"
| "scanLoop dec fds (sc # rest) rowMaps =
     (case scanOne dec fds sc of
        Panic p \<Rightarrow> Panic p
      | Return row \<Rightarrow> scanLoop dec fds rest (rowMaps @ [row]))"

definition scanRowsToMaps :: "decoder \<Rightarrow> Rows \<Rightarrow> rowMap list result" where
  "scanRowsToMaps dec rows = scanLoop dec (FieldDescriptions rows) (pending rows) []"

subsection \<open>\<^verbatim>\<open>execCommand\<close>\<close>

definition tableHeader :: "Rows \<Rightarrow> string list" where
  "tableHeader res = map Name (FieldDescriptions res)"

definition tableRow :: "Rows \<Rightarrow> rowMap \<Rightarrow> string option list" where
  "tableRow res val = map (\<lambda>field. val (Name field)) (FieldDescriptions res)"

text \<open>
  The part of \<^verbatim>\<open>execCommand\<close> after \<^verbatim>\<open>defer tx.Rollback(ctx)\<close>, for a transaction
  handle that is not nil: the events it causes and the error it returns (\<open>None\<close> is
  \<^verbatim>\<open>nil\<close>), or the panic it raises.
\<close>

definition txBody :: "env \<Rightarrow> decoder \<Rightarrow> Tx \<Rightarrow> error option \<Rightarrow> string \<Rightarrow> event list \<times> error option result" where
  "txBody e dec tx err sql =
     (case err of
        Some er \<Rightarrow> ([], Return (Some er))
      | None \<Rightarrow>
          (case Query e tx sql of
             (res, Some er) \<Rightarrow> ([EvQuery tx sql], Return (Some er))
           | (res, None) \<Rightarrow>
               (case scanRowsToMaps dec res of
                  Panic p \<Rightarrow> ([EvQuery tx sql], Panic p)
                | Return vals \<Rightarrow>
                    ([EvQuery tx sql,
                      EvRender (tableHeader res) (map (tableRow res) vals),
                      EvCommit tx (Commit e tx)],
                     Return (Commit e tx)))))"

text \<open>
  From \<^verbatim>\<open>pool.Begin\<close> on, for a pool that is not nil. \<^verbatim>\<open>defer tx.Rollback(ctx)\<close> comes
  before the error check: with a nil \<^verbatim>\<open>tx\<close> (a nil interface) the method cannot be
  resolved and the function panics; otherwise the rollback runs when the function
  returns or panics, after everything else done with \<^verbatim>\<open>tx\<close>.
\<close>

definition withPool :: "env \<Rightarrow> decoder \<Rightarrow> Pool \<Rightarrow> string \<Rightarrow> event list \<times> error option result" where
  "withPool e dec pool sql =
     (case Begin e pool of
        (None, err) \<Rightarrow> ([EvBegin pool None], Panic NilDereference)
      | (Some tx, err) \<Rightarrow>
          (case txBody e dec tx err sql of
             (evs, out) \<Rightarrow> (EvBegin pool (Some tx) # evs @ [EvRollback tx], out)))"

text \<open>
  \<^verbatim>\<open>execCommand\<close>: \<^verbatim>\<open>defer pool.Close()\<close> runs last on every path. A nil pool with a nil
  error makes \<^verbatim>\<open>pool.Begin\<close> dereference nil.
\<close>

definition execCommand :: "env \<Rightarrow> decoder \<Rightarrow> connArgs \<Rightarrow> string \<Rightarrow> event list \<times> error option result" where
  "execCommand e dec a sql =
     (case getConnPool e a of
        (evs0, pool, Some err) \<Rightarrow> (evs0, Return (Some err))
      | (evs0, None, None) \<Rightarrow> (evs0, Panic NilDereference)
      | (evs0, Some pool, None) \<Rightarrow>
          (case withPool e dec pool sql of
             (evs, out) \<Rightarrow> (evs0 @ evs @ [EvClose pool], out)))"

text \<open>
  \<^verbatim>\<open>main\<close>: the action returns what \<^verbatim>\<open>execCommand\<close> returns; a non-nil error is passed
  to \<^verbatim>\<open>log.Fatal\<close> (exit status 1), a panic ends the process with status 2, and a nil
  error lets \<^verbatim>\<open>main\<close> return (status 0).
\<close>

definition exitStatus :: "error option result \<Rightarrow> nat" where
  "exitStatus out = (case out of Return None \<Rightarrow> 0 | Return (Some err) \<Rightarrow> 1 | Panic p \<Rightarrow> 2)"

subsection \<open>The state of a transaction along a trace\<close>

text \<open>
  A transaction is open from the \<^verbatim>\<open>Begin\<close> that returned its handle until a \<^verbatim>\<open>Commit\<close>
  that returns nil or a \<^verbatim>\<open>Rollback\<close>; a failed \<^verbatim>\<open>Commit\<close> is counted as leaving it open.
\<close>

datatype txStatus = NotBegun | Open | Committed | RolledBack

fun txStep :: "Tx \<Rightarrow> txStatus \<Rightarrow> event \<Rightarrow> txStatus" where
  "txStep t s (EvBegin p (Some t')) = (if t' = t then Open else s)"
| "txStep t s (EvCommit t' None) = (if t' = t \<and> s = Open then Committed else s)"
| "txStep t s (EvRollback t') = (if t' = t \<and> s = Open then RolledBack else s)"
| "txStep t s ev = s"

definition txStatusAfter :: "Tx \<Rightarrow> event list \<Rightarrow> txStatus" where
  "txStatusAfter t evs = foldl (txStep t) NotBegun evs"

subsection \<open>Concrete drivers and arguments for the examples\<close>

text \<open>A driver on which every call succeeds and the query returns the given cursor.\<close>

definition queryEnv :: "Rows \<Rightarrow> env" where
  "queryEnv rs =
     \<lparr>pgxpool_New = (\<lambda>u. (Some (Pool 7), None)),
      pgxpool_NewWithConfig = (\<lambda>c. (Some (Pool 7), None)),
      Begin = (\<lambda>p. (Some (Tx 3), None)),
      Query = (\<lambda>t q. (rs, None)),
      Commit = (\<lambda>t. None)\<rparr>"

definition noRows :: Rows where
  "noRows = \<lparr>FieldDescriptions = [], pending = []\<rparr>"

text \<open>A driver whose \<^verbatim>\<open>Begin\<close> fails, returning a nil transaction and an error.\<close>

definition beginFailEnv :: env where
  "beginFailEnv =
     \<lparr>pgxpool_New = (\<lambda>u. (Some (Pool 7), None)),
      pgxpool_NewWithConfig = (\<lambda>c. (Some (Pool 7), None)),
      Begin = (\<lambda>p. (None, Some (LibError 53))),
      Query = (\<lambda>t q. (\<lparr>FieldDescriptions = [], pending = []\<rparr>, None)),
      Commit = (\<lambda>t. None)\<rparr>"

definition urlArgs :: connArgs where
  "urlArgs = \<lparr>host = [], port = [], user = [], password = [], database = [],
              url = ''postgres://localhost/db''\<rparr>"

definition failingDecoder :: decoder where
  "failingDecoder bs = Inl (LibError 16)"

definition sampleBytes :: "8 word list" where
  "sampleBytes = [0x12, 0x3e, 0x45, 0x67, 0xe8, 0x9b, 0x12, 0xd3,
                  0xa4, 0x56, 0x42, 0x66, 0x14, 0x17, 0x40, 0x00]"

text \<open>The values in \<^verbatim>\<open>scans\<close> after \<^verbatim>\<open>rows.Scan\<close> in the iteration for \<open>sc\<close>.\<close>

definition scanned :: "FieldDescription list \<Rightarrow> scan \<Rightarrow> iface list" where
  "scanned fds sc = fst (Scan sc (selfPointers (bufAddr sc) (length fds)))"

text \<open>The last pair of a list whose column has the name \<open>n\<close>.\<close>

fun lastNamed :: "string \<Rightarrow> (FieldDescription \<times> iface) list \<Rightarrow> (FieldDescription \<times> iface) option" where
  "lastNamed n [] = None"
| "lastNamed n (p # ps) =
     (case lastNamed n ps of
        Some q \<Rightarrow> Some q
      | None \<Rightarrow> if Name (fst p) = n then Some p else None)"

text \<open>A cursor with two columns of the same name and one row.\<close>

definition twoNamedA :: Rows where
  "twoNamedA =
     \<lparr>FieldDescriptions = [\<lparr>Name = ''a'', DataTypeOID = 25\<rparr>, \<lparr>Name = ''a'', DataTypeOID = 16\<rparr>],
      pending = [\<lparr>slots = [Written (GString ''first''), Written (GBool True)],
                  scanErr = None, bufAddr = 0xc000\<rparr>]\<rparr>"

text \<open>
  The cursor of \<^verbatim>\<open>SELECT 1 AS n, true AS b, NULL AS x;\<close>: an \<^verbatim>\<open>int4\<close> column decoded
  to an \<^verbatim>\<open>int32\<close>, a \<^verbatim>\<open>bool\<close> column and a \<^verbatim>\<open>text\<close> column holding NULL.
\<close>

definition selectRow :: Rows where
  "selectRow =
     \<lparr>FieldDescriptions = [\<lparr>Name = ''n'', DataTypeOID = 23\<rparr>, \<lparr>Name = ''b'', DataTypeOID = 16\<rparr>,
                           \<lparr>Name = ''x'', DataTypeOID = 25\<rparr>],
      pending = [\<lparr>slots = [Written (GInt 32 1), Written (GBool True), Written Nil],
                  scanErr = None, bufAddr = 0xc000\<rparr>]\<rparr>"

text \<open>
  A cursor with one \<^verbatim>\<open>json\<close> column and one row on which \<^verbatim>\<open>rows.Scan\<close> fails: it
  writes no destination and returns an error.
\<close>

definition scanFails :: Rows where
  "scanFails =
     \<lparr>FieldDescriptions = [\<lparr>Name = ''j'', DataTypeOID = 114\<rparr>],
      pending = [\<lparr>slots = [Untouched], scanErr = Some (LibError 22), bufAddr = 0xc000\<rparr>]\<rparr>"

section \<open>Properties\<close>

lemma queryEnv_sel [simp]:
  "pgxpool_New (queryEnv rs) u = (Some (Pool 7), None)"
  "pgxpool_NewWithConfig (queryEnv rs) c = (Some (Pool 7), None)"
  "Begin (queryEnv rs) p = (Some (Tx 3), None)"
  "Query (queryEnv rs) t q = (rs, None)"
  "Commit (queryEnv rs) t = None"
  by (simp_all add: queryEnv_def)

lemma beginFailEnv_sel [simp]:
  "pgxpool_New beginFailEnv u = (Some (Pool 7), None)"
  "Begin beginFailEnv p = (None, Some (LibError 53))"
  by (simp_all add: beginFailEnv_def)

lemma trim_urlArgs: "trim (url urlArgs) = ''postgres://localhost/db''"
  by (simp add: urlArgs_def trim_def cutset_def)

lemma getConnPool_urlArgs:
  "pgxpool_New e ''postgres://localhost/db'' = r \<Longrightarrow>
   getConnPool e urlArgs = ([EvNew ''postgres://localhost/db''], r)"
  by (simp add: getConnPool_def trim_urlArgs) (simp add: urlArgs_def)

subsection \<open>The connection resolver\<close>

text \<open>
  C1 (as amended). When the trimmed \<open>url\<close> is empty and \<^verbatim>\<open>strconv.Atoi\<close> rejects the
  trimmed \<open>port\<close> (it is not an optionally signed decimal integer in the \<^verbatim>\<open>int\<close>
  range), \<open>getConnPool\<close> returns that error with a nil pool and has called nothing
  in the driver.
\<close>

theorem getConnPool_bad_port:
  assumes "trim (url a) = []" and "Atoi (trim (port a)) = Inl err"
  shows "getConnPool e a = ([], None, Some err)"
  using assms by (simp add: getConnPool_def)

theorem getConnPool_bad_port_witness:
  "trim (url \<lparr>host = ''db'', port = '' 5x32 '', user = ''u'', password = ''p'',
               database = ''d'', url = '' ''\<rparr>) = []
   \<and> Atoi (trim (port \<lparr>host = ''db'', port = '' 5x32 '', user = ''u'', password = ''p'',
                        database = ''d'', url = '' ''\<rparr>))
       = Inl (NumError ''Atoi'' ''5x32'' ErrSyntax)
   \<and> getConnPool (queryEnv noRows)
        \<lparr>host = ''db'', port = '' 5x32 '', user = ''u'', password = ''p'',
          database = ''d'', url = '' ''\<rparr>
       = ([], None, Some (NumError ''Atoi'' ''5x32'' ErrSyntax))"
proof -
  let ?a = "\<lparr>host = ''db'', port = '' 5x32 '', user = ''u'', password = ''p'',
             database = ''d'', url = '' ''\<rparr>"
  have u: "trim (url ?a) = []"
    by (simp add: trim_def cutset_def)
  have p: "Atoi (trim (port ?a)) = Inl (NumError ''Atoi'' ''5x32'' ErrSyntax)"
    by (simp add: trim_def cutset_def Atoi_def isDigit_def digitVal_def)
  from getConnPool_bad_port [OF u p] u p show ?thesis by blast
qed

text \<open>
  C1 as stated fails: the port \<^verbatim>\<open>70000\<close> is no unsigned 16-bit integer, yet \<^verbatim>\<open>Atoi\<close>
  accepts it, \<^verbatim>\<open>uint16(port)\<close> wraps it to 4464, and the pool constructor is called
  and its pool returned.
\<close>

theorem getConnPool_port_70000:
  "trim (url \<lparr>host = ''db'', port = ''70000'', user = ''u'', password = ''p'',
               database = ''d'', url = ''''\<rparr>) = []
   \<and> getConnPool (queryEnv noRows)
        \<lparr>host = ''db'', port = ''70000'', user = ''u'', password = ''p'',
          database = ''d'', url = ''''\<rparr>
     = ([EvNewWithConfig \<lparr>MaxConns = 10,
            ConnConfig = \<lparr>Host = ''db'', Port = 4464, Database = ''d'', User = ''u'',
                           Password = ''p''\<rparr>\<rparr>],
        Some (Pool 7), None)"
proof -
  let ?a = "\<lparr>host = ''db'', port = ''70000'', user = ''u'', password = ''p'',
             database = ''d'', url = ''''\<rparr>"
  have u: "trim (url ?a) = []"
    by (simp add: trim_def)
  have p: "Atoi (trim (port ?a)) = Inr 70000"
    by (simp add: trim_def cutset_def Atoi_def isDigit_def digitVal_def)
  have "getConnPool (queryEnv noRows) ?a
        = ([EvNewWithConfig \<lparr>MaxConns = 10,
              ConnConfig = \<lparr>Host = ''db'', Port = 4464, Database = ''d'', User = ''u'',
                             Password = ''p''\<rparr>\<rparr>],
           Some (Pool 7), None)"
    unfolding getConnPool_def u p by simp
  with u show ?thesis by (rule conjI)
qed

text \<open>
  C6. Two argument records with the same \<open>url\<close>, not empty after trimming, resolve
  identically whatever their other fields hold: \<^verbatim>\<open>pgxpool.New\<close> is called with the
  \<open>url\<close> as given and its result is returned.
\<close>

theorem url_precedence:
  assumes "url a = url b" and "trim (url a) \<noteq> []"
  shows "getConnPool e a = getConnPool e b
         \<and> getConnPool e a = ([EvNew (url a)], pgxpool_New e (url a))"
  using assms by (simp add: getConnPool_def)

theorem url_precedence_witness:
  "url \<lparr>host = ''h1'', port = ''1'', user = ''u1'', password = ''p1'', database = ''d1'',
         url = ''postgres://x/y''\<rparr>
   = url \<lparr>host = ''h2'', port = ''zz'', user = ''u2'', password = ''p2'', database = ''d2'',
           url = ''postgres://x/y''\<rparr>
   \<and> trim ''postgres://x/y'' \<noteq> []
   \<and> getConnPool (queryEnv noRows)
        \<lparr>host = ''h1'', port = ''1'', user = ''u1'', password = ''p1'', database = ''d1'',
          url = ''postgres://x/y''\<rparr>
     = getConnPool (queryEnv noRows)
        \<lparr>host = ''h2'', port = ''zz'', user = ''u2'', password = ''p2'', database = ''d2'',
          url = ''postgres://x/y''\<rparr>
   \<and> getConnPool (queryEnv noRows)
        \<lparr>host = ''h1'', port = ''1'', user = ''u1'', password = ''p1'', database = ''d1'',
          url = ''postgres://x/y''\<rparr>
     = ([EvNew ''postgres://x/y''], Some (Pool 7), None)"
proof -
  let ?a = "\<lparr>host = ''h1'', port = ''1'', user = ''u1'', password = ''p1'', database = ''d1'',
             url = ''postgres://x/y''\<rparr>"
  let ?b = "\<lparr>host = ''h2'', port = ''zz'', user = ''u2'', password = ''p2'', database = ''d2'',
             url = ''postgres://x/y''\<rparr>"
  have eq: "url ?a = url ?b" by simp
  have ne: "trim (url ?a) \<noteq> []" by (simp add: trim_def cutset_def)
  note th = url_precedence [OF eq ne, of "queryEnv noRows"]
  have c1: "getConnPool (queryEnv noRows) ?a = getConnPool (queryEnv noRows) ?b"
    by (rule th [THEN conjunct1])
  have c2: "getConnPool (queryEnv noRows) ?a = ([EvNew ''postgres://x/y''], Some (Pool 7), None)"
    using th [THEN conjunct2] by simp
  have ne': "trim ''postgres://x/y'' \<noteq> []"
    using ne by simp
  from eq ne' c1 c2 show ?thesis by blast
qed

subsection \<open>The query executor\<close>

lemma getConnPool_events:
  "set (fst (getConnPool e a)) \<subseteq> range EvNew \<union> range EvNewWithConfig"
  by (auto simp: getConnPool_def Let_def split: sum.splits)

lemma getConnPool_no_tx_event:
  "ev \<in> set (fst (getConnPool e a)) \<Longrightarrow> txStep t s ev = s"
  using getConnPool_events [of e a] by auto

lemma foldl_txStep_getConnPool:
  "getConnPool e a = (evs0, r) \<Longrightarrow> foldl (txStep t) s evs0 = s"
proof -
  assume g: "getConnPool e a = (evs0, r)"
  have "\<forall>ev \<in> set evs0. txStep t s ev = s"
    using getConnPool_no_tx_event [of _ e a t s] g by simp
  then show ?thesis by (induction evs0) simp_all
qed

lemma txBody_cases:
  "txBody e dec tx err sql = (evs, out) \<Longrightarrow>
     evs = [] \<or> evs = [EvQuery tx sql]
     \<or> (\<exists>h r. evs = [EvQuery tx sql, EvRender h r, EvCommit tx (Commit e tx)])"
  by (auto simp: txBody_def split: option.splits prod.splits result.splits)

lemma execCommand_noRows:
  "execCommand (queryEnv noRows) dec urlArgs ''SELECT 1''
   = ([EvNew ''postgres://localhost/db'', EvBegin (Pool 7) (Some (Tx 3)),
       EvQuery (Tx 3) ''SELECT 1'', EvRender [] [], EvCommit (Tx 3) None,
       EvRollback (Tx 3), EvClose (Pool 7)],
      Return None)"
  by (simp add: execCommand_def getConnPool_urlArgs withPool_def txBody_def
      scanRowsToMaps_def noRows_def tableHeader_def)

text \<open>
  C4. Whenever \<^verbatim>\<open>pool.Begin\<close> has returned a transaction handle, on every path through
  \<open>execCommand\<close> (an error from \<^verbatim>\<open>Begin\<close> or \<^verbatim>\<open>Query\<close>, a panic while materialising,
  a \<^verbatim>\<open>Commit\<close> that succeeds or fails) the last two calls are \<^verbatim>\<open>tx.Rollback\<close> and
  \<^verbatim>\<open>pool.Close\<close>, and the transaction ends committed or rolled back, never open.
\<close>

theorem begun_tx_is_closed:
  assumes "EvBegin p (Some t) \<in> set (fst (execCommand e dec a sql))"
  shows "(\<exists>pre. fst (execCommand e dec a sql) = pre @ [EvRollback t, EvClose p])
         \<and> (txStatusAfter t (fst (execCommand e dec a sql)) = Committed
            \<or> txStatusAfter t (fst (execCommand e dec a sql)) = RolledBack)"
proof -
  obtain evs0 pool err where g: "getConnPool e a = (evs0, pool, err)"
    by (cases "getConnPool e a") auto
  have no0: "EvBegin p (Some t) \<notin> set evs0"
    using getConnPool_events [of e a] g by auto
  from assms g no0 obtain q where pool: "pool = Some q" and err: "err = None"
    by (cases pool; cases err) (auto simp: execCommand_def)
  obtain tx berr where b: "Begin e q = (tx, berr)"
    by (cases "Begin e q") auto
  from assms g no0 pool err b obtain t' where tx: "tx = Some t'"
    by (cases tx) (auto simp: execCommand_def withPool_def)
  obtain evs out where body: "txBody e dec t' berr sql = (evs, out)"
    by (cases "txBody e dec t' berr sql") auto
  have tr: "fst (execCommand e dec a sql)
              = evs0 @ EvBegin q (Some t') # evs @ [EvRollback t', EvClose q]"
    using g pool err b tx body by (simp add: execCommand_def withPool_def)
  from txBody_cases [OF body] have nob: "EvBegin p (Some t) \<notin> set evs"
    by auto
  from assms tr no0 nob have same: "q = p" "t' = t"
    by auto
  have s0: "foldl (txStep t) NotBegun evs0 = NotBegun"
    using foldl_txStep_getConnPool [OF g] .
  have "txStatusAfter t (fst (execCommand e dec a sql)) = Committed
        \<or> txStatusAfter t (fst (execCommand e dec a sql)) = RolledBack"
    using txBody_cases [OF body] same
    by (cases "Commit e t") (auto simp: tr txStatusAfter_def s0)
  moreover have "\<exists>pre. fst (execCommand e dec a sql) = pre @ [EvRollback t, EvClose p]"
    using tr same by simp
  ultimately show ?thesis by blast
qed

theorem begun_tx_is_closed_witness:
  "EvBegin (Pool 7) (Some (Tx 3))
     \<in> set (fst (execCommand (queryEnv noRows) uuid_FromBytes urlArgs ''SELECT 1''))
   \<and> (\<exists>pre. fst (execCommand (queryEnv noRows) uuid_FromBytes urlArgs ''SELECT 1'')
              = pre @ [EvRollback (Tx 3), EvClose (Pool 7)])
   \<and> (txStatusAfter (Tx 3) (fst (execCommand (queryEnv noRows) uuid_FromBytes urlArgs ''SELECT 1''))
         = Committed
       \<or> txStatusAfter (Tx 3) (fst (execCommand (queryEnv noRows) uuid_FromBytes urlArgs ''SELECT 1''))
         = RolledBack)"
proof -
  have h: "EvBegin (Pool 7) (Some (Tx 3))
             \<in> set (fst (execCommand (queryEnv noRows) uuid_FromBytes urlArgs ''SELECT 1''))"
    by (simp add: execCommand_noRows)
  from begun_tx_is_closed [OF h] h show ?thesis by blast
qed

text \<open>
  C8. When \<^verbatim>\<open>pool.Begin\<close> returns a nil transaction together with an error,
  \<open>execCommand\<close> does not return that error: the \<^verbatim>\<open>defer tx.Rollback(ctx)\<close> placed
  before the error check makes it panic on the nil handle; only \<^verbatim>\<open>pool.Close\<close> runs.
\<close>

theorem begin_failure_panics:
  assumes "getConnPool e a = (evs0, Some pool, None)"
    and "Begin e pool = (None, Some err)"
  shows "execCommand e dec a sql = (evs0 @ [EvBegin pool None, EvClose pool], Panic NilDereference)"
  using assms by (simp add: execCommand_def withPool_def)

theorem begin_failure_panics_witness:
  "getConnPool beginFailEnv urlArgs = ([EvNew ''postgres://localhost/db''], Some (Pool 7), None)
   \<and> Begin beginFailEnv (Pool 7) = (None, Some (LibError 53))
   \<and> execCommand beginFailEnv uuid_FromBytes urlArgs ''SELECT 1''
       = ([EvNew ''postgres://localhost/db''] @ [EvBegin (Pool 7) None, EvClose (Pool 7)],
          Panic NilDereference)"
proof -
  have g: "getConnPool beginFailEnv urlArgs
           = ([EvNew ''postgres://localhost/db''], Some (Pool 7), None)"
    by (simp add: getConnPool_urlArgs)
  have b: "Begin beginFailEnv (Pool 7) = (None, Some (LibError 53))"
    by simp
  from begin_failure_panics [OF g b] g b show ?thesis by blast
qed

subsection \<open>The display string of one column value\<close>

lemma OID_distinct [simp]: "BoolOID \<noteq> UUIDOID" "UUIDOID \<noteq> BoolOID"
  by (simp_all add: BoolOID_def UUIDOID_def)

lemma length_hexBytes: "length (hexBytes bs) = 2 * length bs"
  by (induction bs) (simp_all add: hexBytes_def hexByte_def)

lemma length_uuid_String: "length u = 16 \<Longrightarrow> length (uuid_String u) = 36"
  by (simp add: uuid_String_def length_hexBytes)

lemma hexBytes_sample: "hexBytes sampleBytes = ''123e4567e89b12d3a456426614174000''"
  by (simp add: sampleBytes_def hexBytes_def hexByte_def hextable_def)

lemma uuid_String_sample: "uuid_String sampleBytes = ''123e4567-e89b-12d3-a456-426614174000''"
  by (simp add: sampleBytes_def uuid_String_def hexBytes_def hexByte_def hextable_def)

lemma hexBytes_append: "hexBytes (xs @ ys) = hexBytes xs @ hexBytes ys"
  by (simp add: hexBytes_def)

lemma hexByte_chars: "set (hexByte c) \<subseteq> set hextable"
proof -
  have "unat c div 16 < length hextable" "unat c mod 16 < length hextable"
    using unsigned_less [of c, where 'a = nat] by (simp_all add: hextable_def)
  then show ?thesis
    unfolding hexByte_def by (metis empty_set insert_subset list.simps(15) nth_mem subsetI empty_iff)
qed

lemma hexBytes_chars: "set (hexBytes bs) \<subseteq> set hextable"
  using hexByte_chars by (auto simp: hexBytes_def)

lemma hexBytes_no_hyphen: "filter (\<lambda>c. c \<noteq> CHR ''-'') (hexBytes bs) = hexBytes bs"
proof -
  have "CHR ''-'' \<notin> set hextable"
    by (simp add: hextable_def)
  with hexBytes_chars [of bs] have "\<forall>c \<in> set (hexBytes bs). c \<noteq> CHR ''-''"
    by auto
  then show ?thesis by simp
qed

lemma uuid_groups: "take 4 u @ take 2 (drop 4 u) @ take 2 (drop 6 u) @ take 2 (drop 8 u) @ drop 10 u = u"
proof -
  have a: "take 2 (drop 8 u) @ drop 10 u = drop 8 u"
    using append_take_drop_id [of 2 "drop 8 u"] by simp
  have b: "take 2 (drop 6 u) @ drop 8 u = drop 6 u"
    using append_take_drop_id [of 2 "drop 6 u"] by simp
  have c: "take 2 (drop 4 u) @ drop 6 u = drop 4 u"
    using append_take_drop_id [of 2 "drop 4 u"] by simp
  show ?thesis
    by (simp only: a b c append_take_drop_id)
qed

text \<open>
  The text \<open>uuid_String\<close> produces for 16 bytes is the canonical one: 36 characters,
  hyphens at positions 8, 13, 18 and 23, and the lower-case hex digits of the bytes,
  in order, everywhere else.
\<close>

lemma uuid_String_canonical:
  assumes "length u = 16"
  shows "length (uuid_String u) = 36"
    and "uuid_String u ! 8 = CHR ''-''" and "uuid_String u ! 13 = CHR ''-''"
    and "uuid_String u ! 18 = CHR ''-''" and "uuid_String u ! 23 = CHR ''-''"
    and "filter (\<lambda>c. c \<noteq> CHR ''-'') (uuid_String u) = hexBytes u"
    and "set (hexBytes u) \<subseteq> set hextable"
proof -
  show "length (uuid_String u) = 36"
    using assms by (rule length_uuid_String)
  show "uuid_String u ! 8 = CHR ''-''" "uuid_String u ! 13 = CHR ''-''"
    "uuid_String u ! 18 = CHR ''-''" "uuid_String u ! 23 = CHR ''-''"
    using assms by (simp_all add: uuid_String_def nth_append length_hexBytes)
  have "filter (\<lambda>c. c \<noteq> CHR ''-'') (uuid_String u)
        = hexBytes (take 4 u @ take 2 (drop 4 u) @ take 2 (drop 6 u) @ take 2 (drop 8 u) @ drop 10 u)"
    by (simp add: uuid_String_def hexBytes_no_hyphen hexBytes_append)
  then show "filter (\<lambda>c. c \<noteq> CHR ''-'') (uuid_String u) = hexBytes u"
    by (simp only: uuid_groups)
  show "set (hexBytes u) \<subseteq> set hextable"
    by (rule hexBytes_chars)
qed



text \<open>
  C5. In a column of type \<^verbatim>\<open>UUIDOID\<close> a 16-byte array never aborts the conversion:
  when the decoder returns an error the display string is the lower-case hex
  encoding of the 16 bytes, and when it returns a UUID the display string is the
  canonical text of that UUID. The decoder is arbitrary here.
\<close>

theorem uuid_cell:
  assumes "DataTypeOID f = UUIDOID" and "length arr = 16"
  shows "cellValue dec f (GByteArray arr)
         = Return (case dec arr of Inl err \<Rightarrow> hexBytes arr | Inr uuidVal \<Rightarrow> uuid_String uuidVal)"
  using assms by (simp add: cellValue_def UUIDOID_def split: sum.splits)

theorem uuid_cell_witness:
  "DataTypeOID \<lparr>Name = ''id'', DataTypeOID = 2950\<rparr> = UUIDOID
   \<and> length sampleBytes = 16
   \<and> cellValue failingDecoder \<lparr>Name = ''id'', DataTypeOID = 2950\<rparr> (GByteArray sampleBytes)
       = Return ''123e4567e89b12d3a456426614174000''
   \<and> cellValue uuid_FromBytes \<lparr>Name = ''id'', DataTypeOID = 2950\<rparr> (GByteArray sampleBytes)
       = Return ''123e4567-e89b-12d3-a456-426614174000''"
proof -
  have h: "DataTypeOID \<lparr>Name = ''id'', DataTypeOID = 2950\<rparr> = UUIDOID"
    by (simp add: UUIDOID_def)
  have l: "length sampleBytes = 16"
    by (simp add: sampleBytes_def)
  have d: "uuid_FromBytes sampleBytes = Inr sampleBytes"
    by (simp add: uuid_FromBytes_def l)
  from uuid_cell [OF h l, of failingDecoder] uuid_cell [OF h l, of uuid_FromBytes] h l d
  show ?thesis
    by (simp add: failingDecoder_def hexBytes_sample uuid_String_sample)
qed

text \<open>
  C10. \<^verbatim>\<open>uuid.FromBytes\<close> fails exactly on slices whose length is not 16. So for a
  16-byte array in a column of type \<^verbatim>\<open>UUIDOID\<close> decoding succeeds, the display
  string is the canonical UUID text, and the hex fallback is never the result.
\<close>

theorem uuid_fallback_unreachable:
  assumes "DataTypeOID f = UUIDOID" and "length arr = 16"
  shows "uuid_FromBytes arr = Inr arr
         \<and> ((\<exists>err. uuid_FromBytes input = Inl err) = (length input \<noteq> 16))
         \<and> cellValue uuid_FromBytes f (GByteArray arr) = Return (uuid_String arr)
         \<and> cellValue uuid_FromBytes f (GByteArray arr) \<noteq> Return (Sprintf_x (GByteArray arr))"
proof -
  have d: "uuid_FromBytes arr = Inr arr"
    using assms(2) by (simp add: uuid_FromBytes_def)
  have r: "(\<exists>err. uuid_FromBytes input = Inl err) = (length input \<noteq> 16)"
    by (simp add: uuid_FromBytes_def)
  have c: "cellValue uuid_FromBytes f (GByteArray arr) = Return (uuid_String arr)"
    using assms d by (simp add: cellValue_def)
  have "length (uuid_String arr) \<noteq> length (hexBytes arr)"
    using assms(2) by (simp add: length_uuid_String length_hexBytes)
  then have "uuid_String arr \<noteq> Sprintf_x (GByteArray arr)"
    by auto
  with d r c show ?thesis by simp
qed

theorem uuid_fallback_unreachable_witness:
  "DataTypeOID \<lparr>Name = ''id'', DataTypeOID = 2950\<rparr> = UUIDOID
   \<and> length sampleBytes = 16
   \<and> uuid_FromBytes sampleBytes = Inr sampleBytes
   \<and> cellValue uuid_FromBytes \<lparr>Name = ''id'', DataTypeOID = 2950\<rparr> (GByteArray sampleBytes)
       = Return (uuid_String sampleBytes)
   \<and> cellValue uuid_FromBytes \<lparr>Name = ''id'', DataTypeOID = 2950\<rparr> (GByteArray sampleBytes)
       \<noteq> Return (Sprintf_x (GByteArray sampleBytes))"
proof -
  have h: "DataTypeOID \<lparr>Name = ''id'', DataTypeOID = 2950\<rparr> = UUIDOID"
    by (simp add: UUIDOID_def)
  have l: "length sampleBytes = 16"
    by (simp add: sampleBytes_def)
  from uuid_fallback_unreachable [OF h l] h l show ?thesis by blast
qed

subsection \<open>Rows as maps keyed by column name\<close>

lemma length_writeSlots [simp]: "length (writeSlots ws ds) = length ds"
  by (induction ws ds rule: writeSlots.induct) simp_all

lemma length_scanned [simp]: "length (scanned fds sc) = length fds"
  by (simp add: scanned_def Scan_def selfPointers_def)

lemma scanOne_scanned: "scanOne dec fds sc = fillRow dec (zip fds (scanned fds sc)) Map.empty"
  by (simp add: scanOne_def scanned_def Let_def)

lemma lastNamed_None: "lastNamed n ps = None \<longleftrightarrow> (\<forall>p \<in> set ps. Name (fst p) \<noteq> n)"
  by (induction ps) (auto split: option.splits)

lemma lastNamed_Some:
  "lastNamed n ps = Some q \<Longrightarrow>
     \<exists>j < length ps. ps ! j = q \<and> Name (fst q) = n
        \<and> (\<forall>k. j < k \<and> k < length ps \<longrightarrow> Name (fst (ps ! k)) \<noteq> n)"
proof (induction ps)
  case Nil
  then show ?case by simp
next
  case (Cons p ps)
  show ?case
  proof (cases "lastNamed n ps")
    case None
    with Cons.prems have q: "q = p" "Name (fst p) = n"
      by (auto split: if_splits)
    from None have "\<forall>k < length ps. Name (fst (ps ! k)) \<noteq> n"
      by (simp add: lastNamed_None)
    then have "\<forall>k. 0 < k \<and> k < length (p # ps) \<longrightarrow> Name (fst ((p # ps) ! k)) \<noteq> n"
      by (auto simp: nth_Cons split: nat.splits)
    with q show ?thesis
      by (intro exI [of _ 0]) simp
  next
    case (Some q')
    with Cons.prems have "q' = q" by simp
    with Some Cons.IH obtain j where j: "j < length ps" "ps ! j = q" "Name (fst q) = n"
      "\<forall>k. j < k \<and> k < length ps \<longrightarrow> Name (fst (ps ! k)) \<noteq> n"
      by auto
    then have "\<forall>k. Suc j < k \<and> k < length (p # ps) \<longrightarrow> Name (fst ((p # ps) ! k)) \<noteq> n"
      by (auto simp: nth_Cons split: nat.splits)
    with j show ?thesis
      by (intro exI [of _ "Suc j"]) simp
  qed
qed

lemma fillRow_lookup:
  "fillRow dec ps row0 = Return row \<Longrightarrow>
     row n = (case lastNamed n ps of
                None \<Rightarrow> row0 n
              | Some (f, v) \<Rightarrow> (case cellValue dec f v of Return s \<Rightarrow> Some s | Panic p \<Rightarrow> None))"
proof (induction ps arbitrary: row0)
  case Nil
  then show ?case by simp
next
  case (Cons p ps)
  obtain f v where p: "p = (f, v)" by (cases p)
  from Cons.prems p obtain s where s: "cellValue dec f v = Return s"
    and rest: "fillRow dec ps (row0(Name f \<mapsto> s)) = Return row"
    by (auto split: result.splits)
  from Cons.IH [OF rest] s p show ?case
    by (auto split: option.splits)
qed

lemma fillRow_cells:
  "fillRow dec ps row0 = Return row \<Longrightarrow> (f, v) \<in> set ps \<Longrightarrow> \<exists>s. cellValue dec f v = Return s"
proof (induction ps arbitrary: row0)
  case Nil
  then show ?case by simp
next
  case (Cons p ps)
  then show ?case
    by (cases p) (auto split: result.splits)
qed

lemma scanLoop_rows:
  "scanLoop dec fds scs acc = Return vals \<Longrightarrow>
     length vals = length acc + length scs
     \<and> (\<forall>r < length scs. scanOne dec fds (scs ! r) = Return (vals ! (length acc + r)))"
proof (induction scs arbitrary: acc)
  case Nil
  then show ?case by simp
next
  case (Cons sc scs)
  from Cons.prems obtain row where row: "scanOne dec fds sc = Return row"
    and rest: "scanLoop dec fds scs (acc @ [row]) = Return vals"
    by (auto split: result.splits)
  from Cons.IH [OF rest] have len: "length vals = length acc + 1 + length scs"
    and nth: "\<forall>r < length scs. scanOne dec fds (scs ! r) = Return (vals ! (length acc + 1 + r))"
    by simp_all
  have pre: "\<And>a. scanLoop dec fds scs a = Return vals \<Longrightarrow> take (length a) vals = a"
  proof -
    fix a show "scanLoop dec fds scs a = Return vals \<Longrightarrow> take (length a) vals = a"
    proof (induction scs arbitrary: a)
      case Nil
      then show ?case by simp
    next
      case (Cons x xs)
      from Cons.prems obtain y where "scanLoop dec fds xs (a @ [y]) = Return vals"
        by (auto split: result.splits)
      from Cons.IH [OF this] have "take (length a + 1) vals = a @ [y]" by simp
      then have "take (length a) (take (length a + 1) vals) = take (length a) (a @ [y])"
        by simp
      then show ?case by (simp add: min_def)
    qed
  qed
  from pre [OF rest] have "take (length acc + 1) vals = acc @ [row]" by simp
  then have "vals ! length acc = (acc @ [row]) ! length acc"
    by (metis Suc_eq_plus1 lessI nth_take)
  then have first: "vals ! length acc = row" by simp
  show ?case
  proof (intro conjI allI impI)
    show "length vals = length acc + length (sc # scs)" using len by simp
  next
    fix r assume r: "r < length (sc # scs)"
    show "scanOne dec fds ((sc # scs) ! r) = Return (vals ! (length acc + r))"
    proof (cases r)
      case 0
      with row first show ?thesis by simp
    next
      case (Suc r')
      with r nth show ?thesis by simp
    qed
  qed
qed
lemma twoNamedA_maps:
  "scanRowsToMaps dec twoNamedA = Return [Map.empty(''a'' \<mapsto> ''first'', ''a'' \<mapsto> ''true'')]"
  by (simp add: scanRowsToMaps_def twoNamedA_def scanOne_def Scan_def selfPointers_def
      cellValue_def UUIDOID_def BoolOID_def)

text \<open>
  C9. Each row is a map keyed by column name, filled in column order. So in every
  materialised row the cell rendered for column \<open>i\<close> is the display string of the
  last column \<open>j\<close> that has the same name as column \<open>i\<close>; when names repeat, the
  values of the earlier columns of that name are not what their cells show.
\<close>

theorem duplicate_names_last_wins:
  assumes "scanRowsToMaps dec res = Return vals"
    and "r < length vals"
    and "i < length (FieldDescriptions res)"
  shows "\<exists>j s. i \<le> j \<and> j < length (FieldDescriptions res)
           \<and> Name (FieldDescriptions res ! j) = Name (FieldDescriptions res ! i)
           \<and> (\<forall>k. j < k \<and> k < length (FieldDescriptions res)
                  \<longrightarrow> Name (FieldDescriptions res ! k) \<noteq> Name (FieldDescriptions res ! i))
           \<and> cellValue dec (FieldDescriptions res ! j)
                (scanned (FieldDescriptions res) (pending res ! r) ! j) = Return s
           \<and> tableRow res (vals ! r) ! i = Some s"
proof -
  let ?fds = "FieldDescriptions res"
  let ?sc = "pending res ! r"
  let ?ps = "zip ?fds (scanned ?fds ?sc)"
  let ?n = "Name (?fds ! i)"
  from assms(1) have loop: "scanLoop dec ?fds (pending res) [] = Return vals"
    by (simp add: scanRowsToMaps_def)
  from scanLoop_rows [OF loop] assms(2)
  have fill: "fillRow dec ?ps Map.empty = Return (vals ! r)"
    by (simp add: scanOne_scanned)
  have len: "length ?ps = length ?fds"
    by simp
  have nth: "\<And>k. k < length ?fds \<Longrightarrow> ?ps ! k = (?fds ! k, scanned ?fds ?sc ! k)"
    by simp
  have "(?fds ! i, scanned ?fds ?sc ! i) \<in> set ?ps"
    using assms(3) len nth by (metis nth_mem)
  then have "\<exists>p \<in> set ?ps. Name (fst p) = ?n"
    by (rule bexI [rotated]) simp
  then have "lastNamed ?n ?ps \<noteq> None"
    unfolding lastNamed_None by blast
  then obtain q where q: "lastNamed ?n ?ps = Some q"
    by auto
  from lastNamed_Some [OF q] obtain j where j: "j < length ?fds" "?ps ! j = q"
    "Name (fst q) = ?n" "\<forall>k. j < k \<and> k < length ?fds \<longrightarrow> Name (fst (?ps ! k)) \<noteq> ?n"
    using len by auto
  have ji: "i \<le> j"
  proof (rule ccontr)
    assume "\<not> i \<le> j"
    then have "j < i" by simp
    with j(4) assms(3) have "Name (fst (?ps ! i)) \<noteq> ?n" by blast
    with nth [OF assms(3)] show False by simp
  qed
  have qj: "q = (?fds ! j, scanned ?fds ?sc ! j)"
    using j(1,2) nth by simp
  then have "q \<in> set ?ps"
    using j(1,2) len by (metis nth_mem)
  with fillRow_cells [OF fill] qj obtain s
    where s: "cellValue dec (?fds ! j) (scanned ?fds ?sc ! j) = Return s"
    by metis
  from fillRow_lookup [OF fill, of ?n] q qj s have row: "(vals ! r) ?n = Some s"
    by simp
  have cell: "tableRow res (vals ! r) ! i = Some s"
    using assms(3) row by (simp add: tableRow_def)
  have later: "\<forall>k. j < k \<and> k < length ?fds \<longrightarrow> Name (?fds ! k) \<noteq> ?n"
    using j(4) nth by simp
  from ji j(1) j(3) qj later s cell show ?thesis
    by (intro exI [of _ j] exI [of _ s]) simp
qed

theorem duplicate_names_last_wins_witness:
  "scanRowsToMaps uuid_FromBytes twoNamedA
     = Return [Map.empty(''a'' \<mapsto> ''first'', ''a'' \<mapsto> ''true'')]
   \<and> (0::nat) < length [Map.empty(''a'' \<mapsto> ''first'', ''a'' \<mapsto> ''true'')]
   \<and> (0::nat) < length (FieldDescriptions twoNamedA)
   \<and> (\<exists>j s. 0 \<le> j \<and> j < length (FieldDescriptions twoNamedA)
           \<and> Name (FieldDescriptions twoNamedA ! j) = Name (FieldDescriptions twoNamedA ! 0)
           \<and> (\<forall>k. j < k \<and> k < length (FieldDescriptions twoNamedA)
                  \<longrightarrow> Name (FieldDescriptions twoNamedA ! k) \<noteq> Name (FieldDescriptions twoNamedA ! 0))
           \<and> cellValue uuid_FromBytes (FieldDescriptions twoNamedA ! j)
                (scanned (FieldDescriptions twoNamedA) (pending twoNamedA ! 0) ! j) = Return s
           \<and> tableRow twoNamedA ([Map.empty(''a'' \<mapsto> ''first'', ''a'' \<mapsto> ''true'')] ! 0) ! 0 = Some s)
   \<and> tableRow twoNamedA ([Map.empty(''a'' \<mapsto> ''first'', ''a'' \<mapsto> ''true'')] ! 0)
       = [Some ''true'', Some ''true'']"
proof -
  have m: "scanRowsToMaps uuid_FromBytes twoNamedA
           = Return [Map.empty(''a'' \<mapsto> ''first'', ''a'' \<mapsto> ''true'')]"
    by (rule twoNamedA_maps)
  have r: "(0::nat) < length [Map.empty(''a'' \<mapsto> ''first'', ''a'' \<mapsto> ''true'')]"
    by simp
  have i: "(0::nat) < length (FieldDescriptions twoNamedA)"
    by (simp add: twoNamedA_def)
  have t: "tableRow twoNamedA ([Map.empty(''a'' \<mapsto> ''first'', ''a'' \<mapsto> ''true'')] ! 0)
           = [Some ''true'', Some ''true'']"
    by (simp add: tableRow_def twoNamedA_def)
  from duplicate_names_last_wins [OF m r i] m r i t show ?thesis
    by blast
qed

subsection \<open>Two runs of the whole command\<close>

text \<open>The error of \<^verbatim>\<open>rows.Scan\<close> has no influence on the materialised row.\<close>

lemma scanOne_ignores_scanErr: "scanOne dec fds (sc\<lparr>scanErr := er\<rparr>) = scanOne dec fds sc"
  by (simp add: scanOne_def Scan_def)

text \<open>
  C2 at the query \<^verbatim>\<open>SELECT 1 AS n, true AS b, NULL AS x;\<close>: the header is
  \<^verbatim>\<open>[n, b, x]\<close> and there is one row, but the \<^verbatim>\<open>%s\<close> verb applied to the \<^verbatim>\<open>int32\<close>
  renders \<^verbatim>\<open>%!s(int32=1)\<close>, not \<^verbatim>\<open>1\<close>.
\<close>

theorem select_row_rendering:
  "execCommand (queryEnv selectRow) uuid_FromBytes urlArgs ''SELECT 1 AS n, true AS b, NULL AS x;''
   = ([EvNew ''postgres://localhost/db'', EvBegin (Pool 7) (Some (Tx 3)),
       EvQuery (Tx 3) ''SELECT 1 AS n, true AS b, NULL AS x;'',
       EvRender [''n'', ''b'', ''x''] [[Some ''%!s(int32=1)'', Some ''true'', Some ''null'']],
       EvCommit (Tx 3) None, EvRollback (Tx 3), EvClose (Pool 7)],
      Return None)"
proof -
  have n32: "natStr 32 = ''32''" and n1: "natStr (Suc 0) = ''1''"
    by (simp_all add: natStr.simps hextable_def)
  have maps: "scanRowsToMaps uuid_FromBytes selectRow
              = Return [Map.empty(''n'' \<mapsto> ''%!s(int32=1)'', ''b'' \<mapsto> ''true'', ''x'' \<mapsto> ''null'')]"
    by (simp add: scanRowsToMaps_def selectRow_def scanOne_def Scan_def selfPointers_def
        cellValue_def UUIDOID_def BoolOID_def badVerb_def intStr_def n32 n1)
  have hdr: "tableHeader selectRow = [''n'', ''b'', ''x'']"
    by (simp add: tableHeader_def selectRow_def)
  have row: "tableRow selectRow (Map.empty(''n'' \<mapsto> ''%!s(int32=1)'', ''b'' \<mapsto> ''true'', ''x'' \<mapsto> ''null''))
             = [Some ''%!s(int32=1)'', Some ''true'', Some ''null'']"
    by (simp add: tableRow_def selectRow_def)
  show ?thesis
    by (simp add: execCommand_def getConnPool_urlArgs withPool_def txBody_def maps hdr row)
qed

text \<open>
  C3 at a cursor whose \<^verbatim>\<open>rows.Scan\<close> fails: the error is dropped, the untouched
  destination (still the \<^verbatim>\<open>*interface{}\<close> stored before the scan) is rendered, the
  transaction is committed and the command returns nil, so the process exits with
  status 0.
\<close>

theorem scan_error_dropped:
  "scanErr (pending scanFails ! 0) = Some (LibError 22)
   \<and> execCommand (queryEnv scanFails) uuid_FromBytes urlArgs ''SELECT j FROM t;''
     = ([EvNew ''postgres://localhost/db'', EvBegin (Pool 7) (Some (Tx 3)),
         EvQuery (Tx 3) ''SELECT j FROM t;'',
         EvRender [''j''] [[Some ''%!s(*interface {}=0xc000)'']],
         EvCommit (Tx 3) None, EvRollback (Tx 3), EvClose (Pool 7)],
        Return None)
   \<and> exitStatus (snd (execCommand (queryEnv scanFails) uuid_FromBytes urlArgs ''SELECT j FROM t;'')) = 0"
proof -
  have hx: "hexStr 49152 = ''c000''"
    by (simp add: hexStr.simps hextable_def)
  have maps: "scanRowsToMaps uuid_FromBytes scanFails
              = Return [Map.empty(''j'' \<mapsto> ''%!s(*interface {}=0xc000)'')]"
    by (simp add: scanRowsToMaps_def scanFails_def scanOne_def Scan_def selfPointers_def
        cellValue_def UUIDOID_def BoolOID_def badVerb_def hx)
  have hdr: "tableHeader scanFails = [''j'']"
    by (simp add: tableHeader_def scanFails_def)
  have row: "tableRow scanFails (Map.empty(''j'' \<mapsto> ''%!s(*interface {}=0xc000)''))
             = [Some ''%!s(*interface {}=0xc000)'']"
    by (simp add: tableRow_def scanFails_def)
  have run: "execCommand (queryEnv scanFails) uuid_FromBytes urlArgs ''SELECT j FROM t;''
     = ([EvNew ''postgres://localhost/db'', EvBegin (Pool 7) (Some (Tx 3)),
         EvQuery (Tx 3) ''SELECT j FROM t;'',
         EvRender [''j''] [[Some ''%!s(*interface {}=0xc000)'']],
         EvCommit (Tx 3) None, EvRollback (Tx 3), EvClose (Pool 7)],
        Return None)"
    by (simp add: execCommand_def getConnPool_urlArgs withPool_def txBody_def maps hdr row)
  have err: "scanErr (pending scanFails ! 0) = Some (LibError 22)"
    by (simp add: scanFails_def)
  from err run show ?thesis
    by (simp add: exitStatus_def)
qed

end
